theory Spec2Isabelle
  imports Main "HOL-Library.Word"
begin

section \<open>Domain model (package domain)\<close>

text \<open>
  \<^verbatim>\<open>type WalletAddress string\<close>, \<^verbatim>\<open>type UserID int64\<close>,
  \<^verbatim>\<open>type TransactionHash string\<close>. A \<^verbatim>\<open>*big.Int\<close> is an unbounded integer, a
  \<^verbatim>\<open>time.Time\<close> is kept as an integer instant, \<^verbatim>\<open>uint64\<close> is a 64-bit word.
\<close>

type_synonym WalletAddress = string
type_synonym UserID = "64 word"
type_synonym TransactionHash = string

record Transfer =
  TxHash :: TransactionHash
  From :: WalletAddress
  To :: WalletAddress
  Value :: int
  TokenSymbol :: string
  TokenAddress :: string
  LogIndex :: int

record Transaction =
  tx_Hash :: TransactionHash
  tx_From :: WalletAddress
  tx_To :: WalletAddress
  tx_BlockNumber :: "64 word"
  tx_Timestamp :: int
  tx_GasUsed :: "64 word"
  tx_GasPrice :: int
  tx_Transfers :: "Transfer list"

record WalletNotification =
  n_WalletAddress :: WalletAddress
  n_Transaction :: Transaction
  n_Transfers :: "Transfer list"
  n_Subscribers :: "UserID list"
  n_Timestamp :: int

text \<open>The error values of \<^verbatim>\<open>internal/domain/errors.go\<close>.\<close>

datatype error =
    ErrWalletNotFound
  | ErrSubscriptionExists
  | ErrInvalidAddress
  | ErrConnectionFailed
  | ErrTransactionNotFound

section \<open>Wallet tracker (package usecase)\<close>

text \<open>
  The two maps of \<^verbatim>\<open>WalletTracker\<close>, which every method reads and writes under the
  lock \<^verbatim>\<open>mu\<close>, so that each method is one step on this state. A
  \<^verbatim>\<open>context.CancelFunc\<close> is named by the address whose listener context it cancels.
\<close>

datatype CancelFunc = CancelFunc WalletAddress

record WalletTracker =
  listeners :: "WalletAddress \<rightharpoonup> CancelFunc"
  subscribers :: "WalletAddress \<rightharpoonup> UserID list"

definition NewWalletTracker :: WalletTracker where
  "NewWalletTracker = \<lparr>listeners = Map.empty, subscribers = Map.empty\<rparr>"

text \<open>Indexing a Go map of slices: a missing key reads as the nil (empty) slice.\<close>

definition index_slices :: "('k \<rightharpoonup> 'v list) \<Rightarrow> 'k \<Rightarrow> 'v list" where
  "index_slices m k = (case m k of None \<Rightarrow> [] | Some xs \<Rightarrow> xs)"

definition AddWallet ::
  "WalletAddress \<Rightarrow> UserID \<Rightarrow> WalletTracker \<Rightarrow> WalletTracker \<times> error option" where
  "AddWallet walletAddress userID wt =
     (let wt1 = wt\<lparr>subscribers := (subscribers wt)
                    (walletAddress \<mapsto> index_slices (subscribers wt) walletAddress @ [userID])\<rparr>;
          wt2 = (case listeners wt1 walletAddress of
                   None \<Rightarrow>
                     (let cancel = CancelFunc walletAddress
                      in wt1\<lparr>listeners := (listeners wt1)(walletAddress \<mapsto> cancel)\<rparr>)
                 | Some _ \<Rightarrow> wt1)
      in (wt2, None))"

text \<open>
  The loop of \<^verbatim>\<open>RemoveWallet\<close>, from index \<open>i\<close> on: at the first \<open>i\<close> with
  \<^verbatim>\<open>subscribers[i] == userID\<close> it yields
  \<^verbatim>\<open>append(subscribers[:i], subscribers[i+1:]...)\<close> and breaks; when the range is
  exhausted nothing is written (\<open>None\<close>).
\<close>

function removeLoop :: "UserID list \<Rightarrow> UserID \<Rightarrow> nat \<Rightarrow> UserID list option" where
  "removeLoop subs userID i =
     (if i < length subs then
        (if subs ! i = userID then Some (take i subs @ drop (i + 1) subs)
         else removeLoop subs userID (i + 1))
      else None)"
  by pat_completeness auto
termination
  by (relation "measure (\<lambda>(subs, userID, i). length subs - i)") auto

declare removeLoop.simps [simp del]

definition RemoveWallet ::
  "WalletAddress \<Rightarrow> UserID \<Rightarrow> WalletTracker \<Rightarrow> WalletTracker \<times> error option" where
  "RemoveWallet walletAddress userID wt =
     (let subs = index_slices (subscribers wt) walletAddress;
          wt1 = (case removeLoop subs userID 0 of
                   Some subs' \<Rightarrow> wt\<lparr>subscribers := (subscribers wt)(walletAddress \<mapsto> subs')\<rparr>
                 | None \<Rightarrow> wt);
          wt2 = (if length (index_slices (subscribers wt1) walletAddress) = 0 then
                   (case listeners wt1 walletAddress of
                      Some cancel \<Rightarrow>
                        wt1\<lparr>listeners := (listeners wt1)(walletAddress := None),
                            subscribers := (subscribers wt1)(walletAddress := None)\<rparr>
                    | None \<Rightarrow> wt1)
                 else wt1)
      in (wt2, None))"

definition stopAllListeners :: "WalletTracker \<Rightarrow> WalletTracker" where
  "stopAllListeners wt =
     wt\<lparr>listeners := Map.empty, subscribers := Map.empty\<rparr>"

text \<open>
  \<^verbatim>\<open>handleTransaction\<close>: the result is the notification handed to
  \<^verbatim>\<open>publisher.PublishNotification\<close>, or \<open>None\<close> when the function returns without
  calling the publisher. \<open>now\<close> is the value of \<^verbatim>\<open>time.Now()\<close>. The composite literal
  sets four fields; \<^verbatim>\<open>Transfers\<close> keeps its zero value, the nil slice.
\<close>

definition handleTransaction ::
  "int \<Rightarrow> WalletAddress \<Rightarrow> Transaction \<Rightarrow> WalletTracker \<Rightarrow> WalletNotification option" where
  "handleTransaction now walletAddress tx wt =
     (let subs = index_slices (subscribers wt) walletAddress
      in if length subs = 0 then None
         else Some \<lparr>n_WalletAddress = walletAddress, n_Transaction = tx, n_Transfers = [],
                    n_Subscribers = subs, n_Timestamp = now\<rparr>)"

text \<open>
  The operations that change the manager's state, and a run of them in order.
  \<open>Shutdown\<close> is the end of \<^verbatim>\<open>Start\<close>, which calls \<^verbatim>\<open>stopAllListeners\<close>.
\<close>

datatype operation =
    OpAddWallet WalletAddress UserID
  | OpRemoveWallet WalletAddress UserID
  | OpShutdown

fun apply_operation :: "WalletTracker \<Rightarrow> operation \<Rightarrow> WalletTracker" where
  "apply_operation wt (OpAddWallet a u) = fst (AddWallet a u wt)"
| "apply_operation wt (OpRemoveWallet a u) = fst (RemoveWallet a u wt)"
| "apply_operation wt OpShutdown = stopAllListeners wt"

definition run :: "operation list \<Rightarrow> WalletTracker" where
  "run ops = foldl apply_operation NewWalletTracker ops"

text \<open>The manager's invariant: a listener handle is recorded exactly for the addresses
  whose subscriber list is not empty.\<close>

definition watching_iff_subscribed :: "WalletTracker \<Rightarrow> bool" where
  "watching_iff_subscribed wt =
     (\<forall>a. (listeners wt a \<noteq> None) = (index_slices (subscribers wt) a \<noteq> []))"

section \<open>Blockchain client (package blockchain)\<close>

text \<open>
  \<^verbatim>\<open>common.Address\<close> is a 20-byte array and \<^verbatim>\<open>common.Hash\<close> a 32-byte array, read
  here as big-endian words of 160 and 256 bits. A log, a receipt and a transaction are the
  go-ethereum values as this package reads them. Of a transaction: \<open>et_Type\<close> is
  \<^verbatim>\<open>tx.Type()\<close> (0 legacy, 1 access list, 2 dynamic fee, 3 blob), \<open>et_Protected\<close> is
  \<^verbatim>\<open>tx.Protected()\<close>, \<open>et_ChainId\<close> is \<^verbatim>\<open>tx.ChainId()\<close>, \<open>et_Signer\<close> is the account
  whose signature the transaction carries (\<open>None\<close> when the signature recovers no
  account), \<open>et_To\<close> is \<^verbatim>\<open>tx.To()\<close> (\<open>None\<close> for nil) and \<open>et_Value\<close> is
  \<^verbatim>\<open>tx.Value()\<close>.
\<close>

type_synonym Address = "160 word"
type_synonym Hash = "256 word"

record Log =
  log_Address :: Address
  Topics :: "Hash list"
  Data :: "8 word list"

record Receipt =
  Logs :: "Log list"
  r_BlockNumber :: int
  r_GasUsed :: "64 word"

record EthTransaction =
  et_Hash :: Hash
  et_Type :: "8 word"
  et_Protected :: bool
  et_ChainId :: int
  et_Signer :: "Address option"
  et_To :: "Address option"
  et_Value :: int
  et_GasPrice :: int

text \<open>
  What the package calls outside the repository: \<^verbatim>\<open>Address.Hex()\<close> (the checksummed
  hexadecimal form, 42 characters), \<^verbatim>\<open>Hash.Hex()\<close>, the ABI parser and coder, and
  the node's \<^verbatim>\<open>CallContract\<close>. The node's answer may change over
  time, so \<open>callContract\<close> also takes the number of calls issued before.
\<close>

record Lib =
  addressHex :: "Address \<Rightarrow> string"
  hashHex :: "Hash \<Rightarrow> string"
  abiParses :: bool
  abiPack :: "8 word list option"
  callContract :: "nat \<Rightarrow> Address \<Rightarrow> 8 word list \<Rightarrow> 8 word list option"
  abiUnpack :: "8 word list \<Rightarrow> string option"

text \<open>The ERC-20 Transfer event signature of \<^verbatim>\<open>erc20.go\<close>.\<close>

definition transferEventSignature :: Hash where
  "transferEventSignature =
     0xddf252ad1be2c89b69c2b068fc378daa952ba7f163c4a11628f55a4df523b3ef"

text \<open>
  \<^verbatim>\<open>common.HexToAddress(topic.Hex())\<close>: the hash is printed as its 64 hexadecimal
  digits, which \<^verbatim>\<open>HexToAddress\<close> decodes to 32 bytes and crops from the left to the
  last 20. On words this is the truncation to the low 160 bits.
\<close>

definition topicAddress :: "Hash \<Rightarrow> Address" where
  "topicAddress topic = ucast topic"

text \<open>\<^verbatim>\<open>new(big.Int).SetBytes(data)\<close>: the bytes read as a big-endian unsigned integer.\<close>

definition SetBytes :: "8 word list \<Rightarrow> int" where
  "SetBytes data = foldl (\<lambda>acc b. acc * 256 + uint b) 0 data"

text \<open>
  \<^verbatim>\<open>PlasmaClient\<close>: the chain identifier set from the configuration and the token
  cache. \<open>calls\<close> records the addresses for which \<^verbatim>\<open>CallContract\<close> was issued, in
  order. \<^verbatim>\<open>NewPlasmaClient\<close> takes \<^verbatim>\<open>cfg.ChainID\<close>.
\<close>

record PlasmaClient =
  chainID :: int
  tokenCache :: "Address \<rightharpoonup> string"
  calls :: "Address list"

definition NewPlasmaClient :: "int \<Rightarrow> PlasmaClient" where
  "NewPlasmaClient cfg_ChainID =
     \<lparr>chainID = cfg_ChainID, tokenCache = Map.empty, calls = []\<rparr>"

text \<open>
  \<^verbatim>\<open>types.Sender(types.NewEIP155Signer(chainId), tx)\<close>, as go-ethereum's
  \<^verbatim>\<open>EIP155Signer.Sender\<close> computes it; \<open>None\<close> is a returned error. The signer
  accepts legacy transactions only: for every other transaction type it returns
  \<^verbatim>\<open>ErrTxTypeNotSupported\<close>. A legacy transaction without replay protection is handed
  to the Homestead signer; a protected one of another chain gives
  \<^verbatim>\<open>ErrInvalidChainId\<close>; otherwise the account is recovered from the signature.
\<close>

definition LegacyTxType :: "8 word" where
  "LegacyTxType = 0"

definition Sender :: "int \<Rightarrow> EthTransaction \<Rightarrow> Address option" where
  "Sender chainId tx =
     (if et_Type tx \<noteq> LegacyTxType then None
      else if \<not> et_Protected tx then et_Signer tx
      else if et_ChainId tx \<noteq> chainId then None
      else et_Signer tx)"

text \<open>
  \<^verbatim>\<open>ERC20Helper.GetTokenSymbol\<close>: pack the call, ask the node, unpack the answer.
  \<open>None\<close> is a returned error.
\<close>

definition GetTokenSymbol :: "Lib \<Rightarrow> Address \<Rightarrow> PlasmaClient \<Rightarrow> string option \<times> PlasmaClient" where
  "GetTokenSymbol lib tokenAddress pc =
     (case abiPack lib of
        None \<Rightarrow> (None, pc)
      | Some data \<Rightarrow>
          (let pc' = pc\<lparr>calls := calls pc @ [tokenAddress]\<rparr>
           in case callContract lib (length (calls pc)) tokenAddress data of
                None \<Rightarrow> (None, pc')
              | Some result \<Rightarrow> (abiUnpack lib result, pc')))"

text \<open>
  \<^verbatim>\<open>getTokenSymbol\<close>. \<^verbatim>\<open>tokenAddress.Hex()[:8]\<close> is the first eight characters;
  \<^verbatim>\<open>Hex()\<close> always has 42, so the slice expression cannot panic.
\<close>

definition getTokenSymbol :: "Lib \<Rightarrow> Address \<Rightarrow> PlasmaClient \<Rightarrow> string \<times> PlasmaClient" where
  "getTokenSymbol lib tokenAddress pc =
     (case tokenCache pc tokenAddress of
        Some symbol \<Rightarrow> (symbol, pc)
      | None \<Rightarrow>
          if addressHex lib tokenAddress = ''0x0000000000000000000000000000000000000000''
          then (''XPL'', pc)
          else if addressHex lib tokenAddress = ''0xa0b86a33e6ba0c74d75c9abfd35e5e0b1bcceb83''
          then (''WXPL'', pc)
          else if \<not> abiParses lib then (take 8 (addressHex lib tokenAddress), pc)
          else
            (let (r, pc1) = GetTokenSymbol lib tokenAddress pc;
                 symbol = (case r of
                             None \<Rightarrow> take 8 (addressHex lib tokenAddress)
                           | Some s \<Rightarrow> s)
             in (symbol, pc1\<lparr>tokenCache := (tokenCache pc1)(tokenAddress \<mapsto> symbol)\<rparr>)))"

text \<open>
  The test both \<^verbatim>\<open>isAddressInvolved\<close> and \<^verbatim>\<open>extractAllTransfers\<close> apply to a log:
  \<^verbatim>\<open>len(log.Topics) >= 3 && log.Topics[0] == transferEventSignature\<close>.
\<close>

definition isTransferLog :: "Log \<Rightarrow> bool" where
  "isTransferLog log = (length (Topics log) \<ge> 3 \<and> Topics log ! 0 = transferEventSignature)"

fun logsInvolve :: "Log list \<Rightarrow> Address \<Rightarrow> bool" where
  "logsInvolve [] address = False"
| "logsInvolve (log # logs) address =
     (if isTransferLog log then
        (let from = topicAddress (Topics log ! 1);
             to = topicAddress (Topics log ! 2)
         in if from = address \<or> to = address then True else logsInvolve logs address)
      else logsInvolve logs address)"

definition isAddressInvolved ::
  "PlasmaClient \<Rightarrow> EthTransaction \<Rightarrow> Receipt \<Rightarrow> Address \<Rightarrow> bool" where
  "isAddressInvolved pc tx receipt address =
     (if (case Sender (chainID pc) tx of None \<Rightarrow> False | Some from \<Rightarrow> from = address)
      then True
      else if (case et_To tx of None \<Rightarrow> False | Some to \<Rightarrow> to = address) then True
      else logsInvolve (Logs receipt) address)"

text \<open>
  The second loop of \<^verbatim>\<open>extractAllTransfers\<close>, over the logs from position \<open>i\<close> on, with
  the transfers appended so far and the client whose cache \<^verbatim>\<open>getTokenSymbol\<close> reads
  and writes.
\<close>

fun logTransfers ::
  "Lib \<Rightarrow> EthTransaction \<Rightarrow> Log list \<Rightarrow> nat \<Rightarrow> Transfer list \<Rightarrow> PlasmaClient \<Rightarrow>
   Transfer list \<times> PlasmaClient" where
  "logTransfers lib tx [] i transfers pc = (transfers, pc)"
| "logTransfers lib tx (log # logs) i transfers pc =
     (if isTransferLog log then
        (let from = topicAddress (Topics log ! 1);
             to = topicAddress (Topics log ! 2);
             value = SetBytes (Data log);
             (tokenSymbol, pc1) = getTokenSymbol lib (log_Address log) pc;
             transfer = \<lparr>TxHash = hashHex lib (et_Hash tx),
                         From = addressHex lib from,
                         To = addressHex lib to,
                         Value = value,
                         TokenSymbol = tokenSymbol,
                         TokenAddress = addressHex lib (log_Address log),
                         LogIndex = int i\<rparr>
         in logTransfers lib tx logs (i + 1) (transfers @ [transfer]) pc1)
      else logTransfers lib tx logs (i + 1) transfers pc)"

text \<open>
  \<^verbatim>\<open>types.Sender\<close> returns the zero address together with its error, and the code
  drops the error (\<^verbatim>\<open>fromAddr, _ := ...\<close>).
\<close>

definition senderOrZero :: "PlasmaClient \<Rightarrow> EthTransaction \<Rightarrow> Address" where
  "senderOrZero pc tx = (case Sender (chainID pc) tx of None \<Rightarrow> 0 | Some a \<Rightarrow> a)"

text \<open>The record built in the first branch of \<^verbatim>\<open>extractAllTransfers\<close>.\<close>

definition nativeTransfer :: "Lib \<Rightarrow> PlasmaClient \<Rightarrow> EthTransaction \<Rightarrow> Transfer" where
  "nativeTransfer lib pc tx =
     \<lparr>TxHash = hashHex lib (et_Hash tx),
      From = addressHex lib (senderOrZero pc tx),
      To = (case et_To tx of None \<Rightarrow> [] | Some to \<Rightarrow> addressHex lib to),
      Value = et_Value tx,
      TokenSymbol = ''XPL'',
      TokenAddress = ''0x0000000000000000000000000000000000000000'',
      LogIndex = - 1\<rparr>"

definition extractAllTransfers ::
  "Lib \<Rightarrow> EthTransaction \<Rightarrow> Receipt \<Rightarrow> PlasmaClient \<Rightarrow> Transfer list \<times> PlasmaClient" where
  "extractAllTransfers lib tx receipt pc =
     (let transfers = (if et_Value tx > 0 then [nativeTransfer lib pc tx] else [])
      in logTransfers lib tx (Logs receipt) 0 transfers pc)"

section \<open>Reading the claims\<close>

text \<open>The fields of a transfer other than its token symbol.\<close>

definition transfer_fields ::
  "Transfer \<Rightarrow> TransactionHash \<times> WalletAddress \<times> WalletAddress \<times> int \<times> string \<times> int" where
  "transfer_fields t = (TxHash t, From t, To t, Value t, TokenAddress t, LogIndex t)"

text \<open>
  The specification's narrowed subset: the transfers of a transaction whose \<open>from\<close> or
  \<open>to\<close> is the watched wallet address.
\<close>

definition transfers_involving :: "WalletAddress \<Rightarrow> Transaction \<Rightarrow> Transfer list" where
  "transfers_involving walletAddress tx =
     filter (\<lambda>t. From t = walletAddress \<or> To t = walletAddress) (tx_Transfers tx)"

section \<open>Example data\<close>

text \<open>
  Three accounts and a token contract whose addresses consist of decimal digits only, so
  that their checksummed form has no letters to capitalise. \<open>demo_lib\<close> prints these
  addresses (and the zero address) as \<^verbatim>\<open>Address.Hex()\<close> does; its node fails every
  contract call.
\<close>

definition addr_A :: Address where
  "addr_A = 0x1111111111111111111111111111111111111111"

definition addr_B :: Address where
  "addr_B = 0x2222222222222222222222222222222222222222"

definition addr_C :: Address where
  "addr_C = 0x4444444444444444444444444444444444444444"

definition addr_token :: Address where
  "addr_token = 0x3333333333333333333333333333333333333333"

definition demo_addressHex :: "Address \<Rightarrow> string" where
  "demo_addressHex a =
     (if a = addr_A then ''0x1111111111111111111111111111111111111111''
      else if a = addr_B then ''0x2222222222222222222222222222222222222222''
      else if a = addr_C then ''0x4444444444444444444444444444444444444444''
      else if a = addr_token then ''0x3333333333333333333333333333333333333333''
      else ''0x0000000000000000000000000000000000000000'')"

definition demo_lib :: Lib where
  "demo_lib =
     \<lparr>addressHex = demo_addressHex,
      hashHex = (\<lambda>h. ''0x5555555555555555555555555555555555555555555555555555555555555555''),
      abiParses = True,
      abiPack = Some [0x95, 0xd8, 0x9b, 0x41],
      callContract = (\<lambda>k a d. None),
      abiUnpack = (\<lambda>r. None)\<rparr>"

text \<open>
  A receipt with three logs: an event of another kind, a Transfer of 100 from A to B
  emitted by the token contract, and a log with the Transfer signature but two topics.
\<close>

definition demo_receipt :: Receipt where
  "demo_receipt =
     \<lparr>Logs =
        [\<lparr>log_Address = addr_token, Topics = [7], Data = []\<rparr>,
         \<lparr>log_Address = addr_token,
          Topics = [transferEventSignature, ucast addr_A, ucast addr_B],
          Data = [0, 0, 0, 100]\<rparr>,
         \<lparr>log_Address = addr_token,
          Topics = [transferEventSignature, ucast addr_C],
          Data = [1]\<rparr>],
      r_BlockNumber = 12, r_GasUsed = 21000\<rparr>"

text \<open>A client for the default chain identifier of \<^verbatim>\<open>config.go\<close>.\<close>

definition demo_client :: PlasmaClient where
  "demo_client = NewPlasmaClient 9745"

text \<open>
  A legacy transaction of that chain, signed by A and sent to the token contract,
  carrying a native value or none.
\<close>

definition demo_tx :: "int \<Rightarrow> EthTransaction" where
  "demo_tx v =
     \<lparr>et_Hash = 0x5555555555555555555555555555555555555555555555555555555555555555,
      et_Type = LegacyTxType, et_Protected = True, et_ChainId = 9745,
      et_Signer = Some addr_A, et_To = Some addr_token, et_Value = v, et_GasPrice = 1\<rparr>"

text \<open>
  A dynamic-fee (type 2) transaction of the same chain by which A sends a native value
  of 5 to C, and its receipt, which has no logs.
\<close>

definition dynamic_fee_tx :: EthTransaction where
  "dynamic_fee_tx =
     \<lparr>et_Hash = 0x6666666666666666666666666666666666666666666666666666666666666666,
      et_Type = 2, et_Protected = True, et_ChainId = 9745,
      et_Signer = Some addr_A, et_To = Some addr_C, et_Value = 5, et_GasPrice = 1\<rparr>"

definition plain_receipt :: Receipt where
  "plain_receipt = \<lparr>Logs = [], r_BlockNumber = 12, r_GasUsed = 21000\<rparr>"

text \<open>A transfer from a watched wallet, and a domain transaction that carries it.\<close>

definition demo_transfer :: Transfer where
  "demo_transfer =
     \<lparr>TxHash = ''0x5555555555555555555555555555555555555555555555555555555555555555'',
      From = ''0x1111111111111111111111111111111111111111'',
      To = ''0x2222222222222222222222222222222222222222'',
      Value = 100, TokenSymbol = ''XPL'',
      TokenAddress = ''0x0000000000000000000000000000000000000000'',
      LogIndex = - 1\<rparr>"

definition demo_transaction :: Transaction where
  "demo_transaction =
     \<lparr>tx_Hash = ''0x5555555555555555555555555555555555555555555555555555555555555555'',
      tx_From = ''0x1111111111111111111111111111111111111111'',
      tx_To = ''0x2222222222222222222222222222222222222222'',
      tx_BlockNumber = 12, tx_Timestamp = 1700000000, tx_GasUsed = 21000, tx_GasPrice = 1,
      tx_Transfers = [demo_transfer]\<rparr>"

section \<open>Properties of the wallet tracker\<close>

lemma removeLoop_from:
  "removeLoop subs u i =
     (if u \<in> set (drop i subs) then Some (take i subs @ remove1 u (drop i subs)) else None)"
proof (induction subs u i rule: removeLoop.induct)
  case (1 subs userID i)
  show ?case
  proof (cases "i < length subs")
    case False
    then show ?thesis by (simp add: removeLoop.simps [of subs userID i])
  next
    case True
    then have d: "drop i subs = subs ! i # drop (Suc i) subs"
      by (simp add: Cons_nth_drop_Suc)
    show ?thesis
    proof (cases "subs ! i = userID")
      case True
      with \<open>i < length subs\<close> d show ?thesis
        by (simp add: removeLoop.simps [of subs userID i])
    next
      case False
      with \<open>i < length subs\<close> have
        "removeLoop subs userID i = removeLoop subs userID (i + 1)"
        by (simp add: removeLoop.simps [of subs userID i])
      also have "\<dots> = (if userID \<in> set (drop (i + 1) subs)
                       then Some (take (i + 1) subs @ remove1 userID (drop (i + 1) subs))
                       else None)"
        using "1.IH" \<open>i < length subs\<close> False by simp
      finally show ?thesis
        using False d \<open>i < length subs\<close> by (simp add: take_Suc_conv_app_nth)
    qed
  qed
qed

lemma removeLoop_remove1:
  "removeLoop subs u 0 = (if u \<in> set subs then Some (remove1 u subs) else None)"
  by (simp add: removeLoop_from)

lemma index_slices_simps [simp]:
  "index_slices Map.empty k = []"
  "index_slices (m(k \<mapsto> xs)) k = xs"
  "index_slices (m(k := None)) k = []"
  "k' \<noteq> k \<Longrightarrow> index_slices (m(k := v)) k' = index_slices m k'"
  by (simp_all add: index_slices_def)

lemma invariant_initial: "watching_iff_subscribed NewWalletTracker"
  by (simp add: watching_iff_subscribed_def NewWalletTracker_def)

lemma invariant_AddWallet:
  assumes "watching_iff_subscribed wt"
  shows "watching_iff_subscribed (fst (AddWallet a u wt))"
  unfolding watching_iff_subscribed_def
proof
  fix b
  from assms have inv: "(listeners wt b \<noteq> None) = (index_slices (subscribers wt) b \<noteq> [])"
    by (simp add: watching_iff_subscribed_def)
  show "(listeners (fst (AddWallet a u wt)) b \<noteq> None) =
        (index_slices (subscribers (fst (AddWallet a u wt))) b \<noteq> [])"
    using inv by (cases "b = a") (auto simp: AddWallet_def Let_def split: option.splits)
qed

lemma invariant_RemoveWallet:
  assumes "watching_iff_subscribed wt"
  shows "watching_iff_subscribed (fst (RemoveWallet a u wt))"
  unfolding watching_iff_subscribed_def
proof
  fix b
  from assms have inv: "\<And>c. (listeners wt c \<noteq> None) = (index_slices (subscribers wt) c \<noteq> [])"
    by (simp add: watching_iff_subscribed_def)
  show "(listeners (fst (RemoveWallet a u wt)) b \<noteq> None) =
        (index_slices (subscribers (fst (RemoveWallet a u wt))) b \<noteq> [])"
  proof (cases "b = a")
    case False
    then show ?thesis
      using inv [of b]
      by (auto simp: RemoveWallet_def Let_def removeLoop_remove1 split: option.splits)
  next
    case True
    show ?thesis
      using inv [of a] unfolding True
      by (auto simp: RemoveWallet_def Let_def removeLoop_remove1 split: option.splits)
  qed
qed

lemma invariant_stopAllListeners: "watching_iff_subscribed (stopAllListeners wt)"
  by (simp add: watching_iff_subscribed_def stopAllListeners_def)

lemma invariant_apply_operation:
  "watching_iff_subscribed wt \<Longrightarrow> watching_iff_subscribed (apply_operation wt x)"
  by (cases x)
     (simp_all add: invariant_AddWallet invariant_RemoveWallet invariant_stopAllListeners)

lemma invariant_foldl:
  "watching_iff_subscribed wt \<Longrightarrow> watching_iff_subscribed (foldl apply_operation wt ops)"
  by (induction ops arbitrary: wt) (simp_all add: invariant_apply_operation)

lemma invariant_run: "watching_iff_subscribed (run ops)"
  by (simp add: run_def invariant_foldl invariant_initial)

lemma AddWallet_subscribers:
  "index_slices (subscribers (fst (AddWallet a u wt))) a =
     index_slices (subscribers wt) a @ [u]"
  by (simp add: AddWallet_def Let_def split: option.splits)

lemma AddWallet_listeners: "listeners (fst (AddWallet a u wt)) a \<noteq> None"
  by (simp add: AddWallet_def Let_def split: option.splits)

lemma RemoveWallet_present:
  assumes "u \<in> set (index_slices (subscribers wt) a)"
    and "remove1 u (index_slices (subscribers wt) a) \<noteq> []"
  shows "index_slices (subscribers (fst (RemoveWallet a u wt))) a =
           remove1 u (index_slices (subscribers wt) a)"
    and "listeners (fst (RemoveWallet a u wt)) a = listeners wt a"
  using assms by (simp_all add: RemoveWallet_def Let_def removeLoop_remove1)

lemma RemoveWallet_absent:
  assumes "u \<notin> set (index_slices (subscribers wt) a)"
    and "watching_iff_subscribed wt"
  shows "RemoveWallet a u wt = (wt, None)"
proof (cases "index_slices (subscribers wt) a = []")
  case True
  from assms(2) have "(listeners wt a \<noteq> None) = (index_slices (subscribers wt) a \<noteq> [])"
    unfolding watching_iff_subscribed_def by (rule spec)
  with True have "listeners wt a = None"
    by simp
  with assms(1) True show ?thesis
    by (simp add: RemoveWallet_def Let_def removeLoop_remove1)
next
  case False
  with assms(1) show ?thesis
    by (simp add: RemoveWallet_def Let_def removeLoop_remove1)
qed

section \<open>Claims about the wallet tracker\<close>

text \<open>
  C6. Starting from the empty manager of \<^verbatim>\<open>NewWalletTracker\<close>, after any sequence of
  AddWallet, RemoveWallet and shutdown operations an address has a recorded listener
  handle if and only if its subscriber list is not empty.
\<close>

theorem listener_iff_subscribers:
  "watching_iff_subscribed (run ops) \<and>
   ((listeners (run ops) a \<noteq> None) = (index_slices (subscribers (run ops)) a \<noteq> []))"
  using invariant_run [of ops] by (simp add: watching_iff_subscribed_def)

theorem listener_iff_subscribers_witness:
  "listeners (run [OpAddWallet ''0x11'' 7, OpAddWallet ''0x22'' 8, OpRemoveWallet ''0x22'' 8])
     ''0x11'' \<noteq> None \<and>
   index_slices
     (subscribers (run [OpAddWallet ''0x11'' 7, OpAddWallet ''0x22'' 8, OpRemoveWallet ''0x22'' 8]))
     ''0x22'' = [] \<and>
   listeners (run [OpAddWallet ''0x11'' 7, OpAddWallet ''0x22'' 8, OpRemoveWallet ''0x22'' 8])
     ''0x22'' = None"
proof -
  let ?ops = "[OpAddWallet ''0x11'' 7, OpAddWallet ''0x22'' 8, OpRemoveWallet ''0x22'' 8]"
  have s11: "index_slices (subscribers (run ?ops)) ''0x11'' = [7]"
    by (simp add: run_def NewWalletTracker_def AddWallet_def RemoveWallet_def Let_def
        removeLoop_remove1)
  have s22: "index_slices (subscribers (run ?ops)) ''0x22'' = []"
    by (simp add: run_def NewWalletTracker_def AddWallet_def RemoveWallet_def Let_def
        removeLoop_remove1)
  from s11 s22 listener_iff_subscribers [of ?ops "''0x11''"]
    listener_iff_subscribers [of ?ops "''0x22''"]
  show ?thesis by simp
qed

text \<open>
  C7. Two calls \<^verbatim>\<open>AddWallet(addr, u)\<close> in a row append \<open>u\<close> twice to the subscriber
  list of \<open>addr\<close> (no deduplication); one following \<^verbatim>\<open>RemoveWallet(addr, u)\<close> removes
  the first entry equal to \<open>u\<close> only, so one of the two added entries stays and the
  address keeps its listener. When \<open>u\<close> was not subscribed to \<open>addr\<close> before, the list
  holds \<open>u\<close> exactly twice after the two additions and exactly once after the removal.
\<close>

theorem add_twice_remove_once:
  "(let old = index_slices (subscribers wt) addr;
        wt2 = fst (AddWallet addr u (fst (AddWallet addr u wt)));
        wt3 = fst (RemoveWallet addr u wt2)
    in index_slices (subscribers wt2) addr = old @ [u, u] \<and>
       listeners wt2 addr \<noteq> None \<and>
       index_slices (subscribers wt3) addr = remove1 u (old @ [u, u]) \<and>
       count_list (index_slices (subscribers wt3) addr) u = count_list old u + 1 \<and>
       listeners wt3 addr \<noteq> None \<and>
       (u \<notin> set old \<longrightarrow>
          count_list (index_slices (subscribers wt2) addr) u = 2 \<and>
          index_slices (subscribers wt3) addr = old @ [u] \<and>
          count_list (index_slices (subscribers wt3) addr) u = 1))"
proof -
  define old where "old = index_slices (subscribers wt) addr"
  define wt2 where "wt2 = fst (AddWallet addr u (fst (AddWallet addr u wt)))"
  define wt3 where "wt3 = fst (RemoveWallet addr u wt2)"
  have s2: "index_slices (subscribers wt2) addr = old @ [u, u]"
    by (simp add: wt2_def old_def AddWallet_subscribers)
  have l2: "listeners wt2 addr \<noteq> None"
    by (simp add: wt2_def AddWallet_listeners)
  have mem: "u \<in> set (index_slices (subscribers wt2) addr)"
    by (simp add: s2)
  have ne: "remove1 u (index_slices (subscribers wt2) addr) \<noteq> []"
  proof -
    have "length (remove1 u (old @ [u, u])) = length old + 1"
      by (simp add: length_remove1)
    then show ?thesis by (auto simp: s2)
  qed
  have s3: "index_slices (subscribers wt3) addr = remove1 u (old @ [u, u])"
    using RemoveWallet_present(1) [OF mem ne] by (simp add: wt3_def s2)
  have l3: "listeners wt3 addr \<noteq> None"
    using RemoveWallet_present(2) [OF mem ne] l2 by (simp add: wt3_def)
  have c3: "count_list (remove1 u (old @ [u, u])) u = count_list old u + 1"
    by (induction old) auto
  have fresh: "u \<notin> set old \<Longrightarrow> remove1 u (old @ [u, u]) = old @ [u]"
    by (simp add: remove1_append)
  have c0: "u \<notin> set old \<Longrightarrow> count_list old u = 0"
    by (simp add: count_list_0_iff)
  show ?thesis
    unfolding Let_def old_def [symmetric] wt2_def [symmetric] wt3_def [symmetric]
    using s2 l2 s3 l3 c3 fresh c0 by simp
qed

theorem add_twice_remove_once_witness:
  "index_slices (subscribers (fst (AddWallet ''0x11'' 5 (fst (AddWallet ''0x11'' 5 NewWalletTracker)))))
     ''0x11'' = [5, 5] \<and>
   index_slices (subscribers (fst (RemoveWallet ''0x11'' 5
      (fst (AddWallet ''0x11'' 5 (fst (AddWallet ''0x11'' 5 NewWalletTracker)))))))
     ''0x11'' = [5] \<and>
   listeners (fst (RemoveWallet ''0x11'' 5
      (fst (AddWallet ''0x11'' 5 (fst (AddWallet ''0x11'' 5 NewWalletTracker))))))
     ''0x11'' \<noteq> None"
proof -
  have old: "index_slices (subscribers NewWalletTracker) ''0x11'' = []"
    by (simp add: NewWalletTracker_def)
  show ?thesis
    using add_twice_remove_once [of NewWalletTracker "''0x11''" 5]
    unfolding Let_def old by simp
qed

text \<open>
  C8. In every state the manager can reach, \<^verbatim>\<open>RemoveWallet\<close> for an address without
  subscribers (an unknown address) or for a user who is not in the address's subscriber
  list returns nil and changes nothing: the subscriber map and the listener map are as
  before.
\<close>

theorem remove_absent_is_noop:
  "subscribers (run ops) a = None \<or> u \<notin> set (index_slices (subscribers (run ops)) a) \<Longrightarrow>
   RemoveWallet a u (run ops) = (run ops, None)"
proof -
  assume "subscribers (run ops) a = None \<or> u \<notin> set (index_slices (subscribers (run ops)) a)"
  then have "u \<notin> set (index_slices (subscribers (run ops)) a)"
    by (auto simp: index_slices_def)
  then show ?thesis
    by (rule RemoveWallet_absent) (rule invariant_run)
qed

theorem remove_absent_is_noop_witness:
  "subscribers (run [OpAddWallet ''0x11'' 7]) ''0x22'' = None \<and>
   RemoveWallet ''0x22'' 7 (run [OpAddWallet ''0x11'' 7]) = (run [OpAddWallet ''0x11'' 7], None) \<and>
   8 \<notin> set (index_slices (subscribers (run [OpAddWallet ''0x11'' 7])) ''0x11'') \<and>
   RemoveWallet ''0x11'' 8 (run [OpAddWallet ''0x11'' 7]) = (run [OpAddWallet ''0x11'' 7], None)"
proof -
  let ?ops = "[OpAddWallet ''0x11'' 7]"
  have unknown: "subscribers (run ?ops) ''0x22'' = None"
    by (simp add: run_def NewWalletTracker_def AddWallet_def Let_def)
  have other: "8 \<notin> set (index_slices (subscribers (run ?ops)) ''0x11'')"
    by (simp add: run_def NewWalletTracker_def AddWallet_def Let_def)
  from unknown other
    remove_absent_is_noop [of ?ops "''0x22''" 7]
    remove_absent_is_noop [of ?ops "''0x11''" 8]
  show ?thesis by simp
qed

text \<open>
  C9. \<^verbatim>\<open>handleTransaction\<close> calls the publisher if and only if the snapshot of the
  address's subscriber list is not empty, and the notification it publishes carries
  that snapshot, which is therefore not empty.
\<close>

theorem publish_iff_snapshot_nonempty:
  "((\<exists>n. handleTransaction now a tx wt = Some n) = (index_slices (subscribers wt) a \<noteq> [])) \<and>
   (\<forall>n. handleTransaction now a tx wt = Some n \<longrightarrow>
      n_Subscribers n = index_slices (subscribers wt) a \<and> n_Subscribers n \<noteq> [])"
  by (auto simp: handleTransaction_def Let_def)

theorem publish_iff_snapshot_nonempty_witness:
  "map_option n_Subscribers
     (handleTransaction 1700000001 ''0x1111111111111111111111111111111111111111''
        demo_transaction (run [OpAddWallet ''0x1111111111111111111111111111111111111111'' 42])) =
     Some [42] \<and>
   handleTransaction 1700000001 ''0x1111111111111111111111111111111111111111''
     demo_transaction (run []) = None"
proof -
  let ?a = "''0x1111111111111111111111111111111111111111''"
  have s1: "index_slices (subscribers (run [OpAddWallet ?a 42])) ?a = [42]"
    by (simp add: run_def AddWallet_def NewWalletTracker_def Let_def)
  have s0: "index_slices (subscribers (run [])) ?a = []"
    by (simp add: run_def NewWalletTracker_def)
  show ?thesis
    using publish_iff_snapshot_nonempty [of 1700000001 ?a demo_transaction "run [OpAddWallet ?a 42]"]
      publish_iff_snapshot_nonempty [of 1700000001 ?a demo_transaction "run []"]
    unfolding s1 s0 by auto
qed

text \<open>
  C10. \<^verbatim>\<open>AddWallet\<close> and \<^verbatim>\<open>RemoveWallet\<close> return nil on every input; the address
  string is not inspected, and \<^verbatim>\<open>ErrInvalidAddress\<close> is never returned.
\<close>

theorem add_remove_return_nil:
  "snd (AddWallet a u wt) = None \<and> snd (RemoveWallet a u wt) = None \<and>
   snd (AddWallet a u wt) \<noteq> Some ErrInvalidAddress \<and>
   snd (RemoveWallet a u wt) \<noteq> Some ErrInvalidAddress"
  by (simp add: AddWallet_def RemoveWallet_def Let_def)

theorem add_remove_return_nil_witness:
  "snd (AddWallet ''not an address'' 1 NewWalletTracker) = None \<and>
   snd (RemoveWallet [] 1 NewWalletTracker) = None"
  using add_remove_return_nil [of "''not an address''" 1 NewWalletTracker]
    add_remove_return_nil [of "[]" 1 NewWalletTracker]
  by simp

text \<open>
  C1. The claim is that every published notification carries, in its own
  \<^verbatim>\<open>Transfers\<close> field, the transfers of the transaction that involve the watched
  address. \<^verbatim>\<open>handleTransaction\<close> never sets that field: for a watched address with one
  subscriber and a transaction with one transfer sent from that address, the published
  notification has an empty \<^verbatim>\<open>Transfers\<close> field, while the narrowed subset holds the
  transfer.
\<close>

theorem notification_omits_transfers:
  "map_option n_Transfers
     (handleTransaction 1700000001 ''0x1111111111111111111111111111111111111111''
        demo_transaction (run [OpAddWallet ''0x1111111111111111111111111111111111111111'' 42])) =
     Some [] \<and>
   transfers_involving ''0x1111111111111111111111111111111111111111'' demo_transaction =
     [demo_transfer]"
  by (simp add: handleTransaction_def run_def AddWallet_def NewWalletTracker_def Let_def
      transfers_involving_def demo_transaction_def demo_transfer_def)

section \<open>Properties of the blockchain client\<close>

lemma SetBytes_snoc: "SetBytes (data @ [b]) = SetBytes data * 256 + uint b"
  by (simp add: SetBytes_def)

lemma SetBytes_big_endian:
  "SetBytes data = (\<Sum>k<length data. uint (data ! k) * 256 ^ (length data - 1 - k))"
proof (induction data rule: rev_induct)
  case Nil
  then show ?case by (simp add: SetBytes_def)
next
  case (snoc b data)
  let ?n = "length data"
  have "(\<Sum>k<length (data @ [b]). uint ((data @ [b]) ! k) * 256 ^ (length (data @ [b]) - 1 - k))
        = (\<Sum>k<?n. uint ((data @ [b]) ! k) * 256 ^ (?n - k)) + uint b"
    by simp
  also have "(\<Sum>k<?n. uint ((data @ [b]) ! k) * 256 ^ (?n - k))
        = (\<Sum>k<?n. 256 * (uint (data ! k) * 256 ^ (?n - 1 - k)))"
  proof (rule sum.cong)
    fix k assume "k \<in> {..<?n}"
    then have k: "k < ?n" by simp
    then have "?n - k = Suc (?n - 1 - k)" by simp
    then have "(256::int) ^ (?n - k) = 256 * 256 ^ (?n - 1 - k)" by simp
    with k show "uint ((data @ [b]) ! k) * 256 ^ (?n - k) = 256 * (uint (data ! k) * 256 ^ (?n - 1 - k))"
      by (simp add: nth_append)
  qed simp
  also have "\<dots> = 256 * SetBytes data"
    by (simp add: snoc.IH sum_distrib_left)
  finally show ?case by (simp add: SetBytes_snoc)
qed

lemma logTransfers_fields:
  "map transfer_fields (fst (logTransfers lib tx logs i transfers pc)) =
     map transfer_fields transfers @
     map (\<lambda>(j, log). (hashHex lib (et_Hash tx),
                       addressHex lib (topicAddress (Topics log ! 1)),
                       addressHex lib (topicAddress (Topics log ! 2)),
                       SetBytes (Data log),
                       addressHex lib (log_Address log),
                       int j))
         (filter (\<lambda>(j, log). isTransferLog log) (enumerate i logs))"
proof (induction logs arbitrary: i transfers pc)
  case Nil
  then show ?case by simp
next
  case (Cons log logs)
  show ?case
    by (cases "getTokenSymbol lib (log_Address log) pc")
       (simp add: Cons.IH Let_def, simp add: transfer_fields_def)
qed

lemma logTransfers_append:
  "\<exists>ts. fst (logTransfers lib tx logs i transfers pc) = transfers @ ts \<and>
        (\<forall>t\<in>set ts. int i \<le> LogIndex t)"
proof (induction logs arbitrary: i transfers pc)
  case Nil
  then show ?case by simp
next
  case (Cons log logs)
  show ?case
  proof (cases "isTransferLog log")
    case False
    from Cons.IH [of "i + 1" transfers pc] False show ?thesis by fastforce
  next
    case True
    obtain sym pc1 where g: "getTokenSymbol lib (log_Address log) pc = (sym, pc1)"
      by (cases "getTokenSymbol lib (log_Address log) pc")
    let ?t = "\<lparr>TxHash = hashHex lib (et_Hash tx),
                 From = addressHex lib (topicAddress (Topics log ! 1)),
                 To = addressHex lib (topicAddress (Topics log ! 2)),
                 Value = SetBytes (Data log),
                 TokenSymbol = sym,
                 TokenAddress = addressHex lib (log_Address log),
                 LogIndex = int i\<rparr>"
    from Cons.IH [of "i + 1" "transfers @ [?t]" pc1]
    obtain ts where ts: "fst (logTransfers lib tx logs (i + 1) (transfers @ [?t]) pc1) = (transfers @ [?t]) @ ts"
      and ge: "\<forall>t\<in>set ts. int (i + 1) \<le> LogIndex t" by blast
    have "fst (logTransfers lib tx (log # logs) i transfers pc) = transfers @ (?t # ts)"
      using True g ts by (simp add: Let_def)
    moreover have "\<forall>t\<in>set (?t # ts). int i \<le> LogIndex t"
      using ge by auto
    ultimately show ?thesis by blast
  qed
qed


lemma extractAllTransfers_shape:
  "\<exists>tokens. fst (extractAllTransfers lib tx receipt pc) =
            (if 0 < et_Value tx then [nativeTransfer lib pc tx] else []) @ tokens \<and>
          (\<forall>t\<in>set tokens. 0 \<le> LogIndex t)"
  using logTransfers_append
    [of lib tx "Logs receipt" 0 "if 0 < et_Value tx then [nativeTransfer lib pc tx] else []" pc]
  by (simp add: extractAllTransfers_def)

lemma isTransferLog_hd:
  "isTransferLog log = (3 \<le> length (Topics log) \<and> hd (Topics log) = transferEventSignature)"
  by (cases "Topics log") (auto simp: isTransferLog_def)

lemma logsInvolve_iff:
  "logsInvolve logs address =
     (\<exists>log\<in>set logs. isTransferLog log \<and>
        (topicAddress (Topics log ! 1) = address \<or> topicAddress (Topics log ! 2) = address))"
  by (induction logs) (auto simp: Let_def)

lemma isAddressInvolved_iff:
  "isAddressInvolved pc tx receipt address =
     (Sender (chainID pc) tx = Some address \<or> et_To tx = Some address \<or>
      (\<exists>log\<in>set (Logs receipt).
         3 \<le> length (Topics log) \<and> hd (Topics log) = transferEventSignature \<and>
         (topicAddress (Topics log ! 1) = address \<or>
          topicAddress (Topics log ! 2) = address)))"
  by (auto simp: isAddressInvolved_def logsInvolve_iff isTransferLog_hd split: option.splits)

lemma Sender_typed: "et_Type tx \<noteq> LegacyTxType \<Longrightarrow> Sender chainId tx = None"
  by (simp add: Sender_def)

lemma demo_addr_distinct:
  "addr_A \<noteq> addr_B" "addr_A \<noteq> addr_C" "addr_A \<noteq> addr_token"
  "addr_B \<noteq> addr_A" "addr_B \<noteq> addr_C" "addr_B \<noteq> addr_token"
  "addr_C \<noteq> addr_A" "addr_C \<noteq> addr_B" "addr_C \<noteq> addr_token"
  "addr_token \<noteq> addr_A" "addr_token \<noteq> addr_B" "addr_token \<noteq> addr_C"
  by (simp_all add: addr_A_def addr_B_def addr_C_def addr_token_def)

lemma topicAddress_ucast: "topicAddress (ucast (a :: Address)) = a"
  unfolding topicAddress_def
  by (rule bit_word_eqI) (simp add: bit_ucast_iff)


section \<open>Claims about the blockchain client\<close>

text \<open>
  C2, as the code has it. When the symbol call fails for a token address (on a cache
  miss, for an address outside the two hardcoded cases, with a usable ABI),
  \<^verbatim>\<open>getTokenSymbol\<close> returns the first eight characters of the address's hexadecimal
  form and stores that degraded symbol in the cache; the next resolution of the same
  address returns it from the cache and leaves the client as it is, so no further call
  is issued.
\<close>

theorem failed_call_symbol_is_cached:
  assumes "tokenCache pc a = None"
    and "addressHex lib a \<noteq> ''0x0000000000000000000000000000000000000000''"
    and "addressHex lib a \<noteq> ''0xa0b86a33e6ba0c74d75c9abfd35e5e0b1bcceb83''"
    and "abiParses lib"
    and "fst (GetTokenSymbol lib a pc) = None"
  shows "fst (getTokenSymbol lib a pc) = take 8 (addressHex lib a) \<and>
         tokenCache (snd (getTokenSymbol lib a pc)) a = Some (take 8 (addressHex lib a)) \<and>
         getTokenSymbol lib a (snd (getTokenSymbol lib a pc)) =
           (take 8 (addressHex lib a), snd (getTokenSymbol lib a pc))"
proof -
  obtain r pc1 where g: "GetTokenSymbol lib a pc = (r, pc1)"
    by (cases "GetTokenSymbol lib a pc")
  with assms(5) have r: "r = None" by simp
  have first: "getTokenSymbol lib a pc =
      (take 8 (addressHex lib a),
       pc1\<lparr>tokenCache := (tokenCache pc1)(a \<mapsto> take 8 (addressHex lib a))\<rparr>)"
    using assms(1-4) g r by (simp add: getTokenSymbol_def Let_def)
  then show ?thesis
    by (simp add: getTokenSymbol_def)
qed

theorem failed_call_symbol_is_cached_witness:
  "tokenCache demo_client addr_token = None \<and>
   abiParses demo_lib \<and>
   fst (GetTokenSymbol demo_lib addr_token demo_client) = None \<and>
   fst (getTokenSymbol demo_lib addr_token demo_client) = ''0x333333'' \<and>
   getTokenSymbol demo_lib addr_token (snd (getTokenSymbol demo_lib addr_token demo_client)) =
     (''0x333333'', snd (getTokenSymbol demo_lib addr_token demo_client))"
proof -
  have h1: "tokenCache demo_client addr_token = None"
    by (simp add: demo_client_def NewPlasmaClient_def)
  have hex: "addressHex demo_lib addr_token = ''0x3333333333333333333333333333333333333333''"
    by (simp add: demo_lib_def demo_addressHex_def demo_addr_distinct)
  have h2: "addressHex demo_lib addr_token \<noteq> ''0x0000000000000000000000000000000000000000''"
    by (simp add: hex)
  have h3: "addressHex demo_lib addr_token \<noteq> ''0xa0b86a33e6ba0c74d75c9abfd35e5e0b1bcceb83''"
    by (simp add: hex)
  have h4: "abiParses demo_lib"
    by (simp add: demo_lib_def)
  have h5: "fst (GetTokenSymbol demo_lib addr_token demo_client) = None"
    by (simp add: GetTokenSymbol_def demo_lib_def Let_def)
  show ?thesis
    using failed_call_symbol_is_cached [OF h1 h2 h3 h4 h5] h1 h4 h5 by (simp add: hex)
qed

text \<open>
  The claim as the specification words it (the degraded symbol is not cached and the next
  resolution calls again) fails: with a node that fails every call, the first resolution
  of the token address issues one call and caches the degraded symbol, and after the
  second resolution the list of issued calls still has that one entry.
\<close>

theorem degraded_symbol_is_cached:
  "fst (GetTokenSymbol demo_lib addr_token demo_client) = None \<and>
   fst (getTokenSymbol demo_lib addr_token demo_client) = ''0x333333'' \<and>
   tokenCache (snd (getTokenSymbol demo_lib addr_token demo_client)) addr_token =
     Some ''0x333333'' \<and>
   calls (snd (getTokenSymbol demo_lib addr_token demo_client)) = [addr_token] \<and>
   calls (snd (getTokenSymbol demo_lib addr_token
                 (snd (getTokenSymbol demo_lib addr_token demo_client)))) = [addr_token]"
  by (simp add: getTokenSymbol_def GetTokenSymbol_def demo_lib_def demo_addressHex_def
      demo_client_def NewPlasmaClient_def demo_addr_distinct Let_def)

text \<open>
  C3. The token transfers produced by \<^verbatim>\<open>extractAllTransfers\<close> (the transfers other
  than the native one, whose \<^verbatim>\<open>LogIndex\<close> is \<open>-1\<close>) are, in receipt order, one per log
  that has at least three topics and the Transfer signature as its first topic, and come
  from no other log. Each has \<open>from\<close> and \<open>to\<close> decoded from the second and third topic,
  as value the big-endian unsigned integer of the log's data, and as \<^verbatim>\<open>LogIndex\<close> the
  zero-based position of the log in the receipt.
\<close>

theorem token_transfers_match_logs:
  "map transfer_fields
     (filter (\<lambda>t. LogIndex t \<noteq> - 1) (fst (extractAllTransfers lib tx receipt pc))) =
   map (\<lambda>(i, log).
          (hashHex lib (et_Hash tx),
           addressHex lib (topicAddress (Topics log ! 1)),
           addressHex lib (topicAddress (Topics log ! 2)),
           (\<Sum>k<length (Data log). uint (Data log ! k) * 256 ^ (length (Data log) - 1 - k)),
           addressHex lib (log_Address log),
           int i))
       (filter (\<lambda>(i, log). 3 \<le> length (Topics log) \<and>
                            hd (Topics log) = transferEventSignature)
          (enumerate 0 (Logs receipt)))"
proof -
  let ?native = "if 0 < et_Value tx then [nativeTransfer lib pc tx] else []"
  let ?all = "fst (extractAllTransfers lib tx receipt pc)"
  obtain tokens where all: "?all = ?native @ tokens"
    and idx: "\<forall>t\<in>set tokens. 0 \<le> LogIndex t"
    using extractAllTransfers_shape [of lib tx receipt pc] by blast
  have keep: "filter (\<lambda>t. LogIndex t \<noteq> - 1) tokens = tokens"
    using idx by (auto simp: filter_id_conv)
  have drop: "filter (\<lambda>t. LogIndex t \<noteq> - 1) ?native = []"
    by (simp add: nativeTransfer_def)
  have sel: "filter (\<lambda>t. LogIndex t \<noteq> - 1) ?all = tokens"
    unfolding all filter_append keep drop by simp
  have "map transfer_fields ?all =
          map transfer_fields ?native @
          map (\<lambda>(j, log). (hashHex lib (et_Hash tx),
                            addressHex lib (topicAddress (Topics log ! 1)),
                            addressHex lib (topicAddress (Topics log ! 2)),
                            SetBytes (Data log),
                            addressHex lib (log_Address log),
                            int j))
              (filter (\<lambda>(j, log). isTransferLog log) (enumerate 0 (Logs receipt)))"
    unfolding extractAllTransfers_def Let_def by (rule logTransfers_fields)
  then have "map transfer_fields tokens =
          map (\<lambda>(j, log). (hashHex lib (et_Hash tx),
                            addressHex lib (topicAddress (Topics log ! 1)),
                            addressHex lib (topicAddress (Topics log ! 2)),
                            SetBytes (Data log),
                            addressHex lib (log_Address log),
                            int j))
              (filter (\<lambda>(j, log). isTransferLog log) (enumerate 0 (Logs receipt)))"
    unfolding all map_append by (simp only: same_append_eq)
  then show ?thesis
    unfolding sel by (simp add: isTransferLog_hd SetBytes_big_endian)
qed

theorem token_transfers_match_logs_witness:
  "map transfer_fields
     (filter (\<lambda>t. LogIndex t \<noteq> - 1)
        (fst (extractAllTransfers demo_lib (demo_tx 5) demo_receipt demo_client))) =
   [(''0x5555555555555555555555555555555555555555555555555555555555555555'',
     ''0x1111111111111111111111111111111111111111'',
     ''0x2222222222222222222222222222222222222222'',
     100,
     ''0x3333333333333333333333333333333333333333'',
     1)]"
proof -
  have three: "{..<4::nat} = {0, 1, 2, 3}" by auto
  show ?thesis
    using token_transfers_match_logs [of demo_lib "demo_tx 5" demo_receipt demo_client]
    by (simp add: demo_receipt_def demo_tx_def demo_lib_def demo_addressHex_def enumerate_eq_zip
        upt_rec topicAddress_ucast demo_addr_distinct three)
qed

text \<open>
  C4. For a transaction with a positive value the extraction starts with exactly one
  native transfer, before all token transfers, with \<^verbatim>\<open>LogIndex\<close> \<open>-1\<close>, symbol
  \<^verbatim>\<open>XPL\<close>, the zero address as token address and the transaction's value; for a
  transaction without positive value no native transfer is produced.
\<close>

theorem native_transfer_iff_value_positive:
  "(0 < et_Value tx \<longrightarrow>
      (\<exists>native tokens.
         fst (extractAllTransfers lib tx receipt pc) = native # tokens \<and>
         LogIndex native = - 1 \<and>
         TokenSymbol native = ''XPL'' \<and>
         TokenAddress native = ''0x0000000000000000000000000000000000000000'' \<and>
         Value native = et_Value tx \<and>
         (\<forall>t\<in>set tokens. 0 \<le> LogIndex t)) \<and>
      length (filter (\<lambda>t. LogIndex t = - 1) (fst (extractAllTransfers lib tx receipt pc))) = 1) \<and>
   (et_Value tx \<le> 0 \<longrightarrow>
      (\<forall>t\<in>set (fst (extractAllTransfers lib tx receipt pc)). 0 \<le> LogIndex t) \<and>
      filter (\<lambda>t. LogIndex t = - 1) (fst (extractAllTransfers lib tx receipt pc)) = [])"
proof -
  obtain tokens where
    all: "fst (extractAllTransfers lib tx receipt pc) =
            (if 0 < et_Value tx then [nativeTransfer lib pc tx] else []) @ tokens"
    and idx: "\<forall>t\<in>set tokens. 0 \<le> LogIndex t"
    using extractAllTransfers_shape [of lib tx receipt pc] by blast
  have none: "filter (\<lambda>t. LogIndex t = - 1) tokens = []"
    using idx by (auto simp: filter_empty_conv)
  show ?thesis
  proof (cases "0 < et_Value tx")
    case True
    then have "fst (extractAllTransfers lib tx receipt pc) = nativeTransfer lib pc tx # tokens"
      using all by simp
    with True idx none show ?thesis
      by (simp add: nativeTransfer_def)
  next
    case False
    then have "fst (extractAllTransfers lib tx receipt pc) = tokens"
      using all by simp
    with False idx none show ?thesis by simp
  qed
qed

theorem native_transfer_iff_value_positive_witness:
  "(0 < et_Value (demo_tx 1000000000000000000) \<and>
    length (filter (\<lambda>t. LogIndex t = - 1)
      (fst (extractAllTransfers demo_lib (demo_tx 1000000000000000000) demo_receipt
         demo_client))) = 1) \<and>
   (et_Value (demo_tx 0) \<le> 0 \<and>
    filter (\<lambda>t. LogIndex t = - 1)
      (fst (extractAllTransfers demo_lib (demo_tx 0) demo_receipt demo_client)) = [])"
  using native_transfer_iff_value_positive
      [of "demo_tx 1000000000000000000" demo_lib demo_receipt demo_client]
    native_transfer_iff_value_positive [of "demo_tx 0" demo_lib demo_receipt demo_client]
  by (simp add: demo_tx_def)


text \<open>
  C5. The claim is that \<^verbatim>\<open>isAddressInvolved\<close> is true exactly when the address is
  the transaction's sender, its direct recipient, or a party of a Transfer log. The code
  recovers the sender with the EIP-155 signer, which rejects every typed transaction:
  for a dynamic-fee transaction signed by A that sends a native value to C and emits no
  log, the recovery fails and A is reported as not involved, although A is the sender.
  The same transaction in legacy form does involve A.
\<close>

theorem typed_transaction_sender_not_involved:
  "et_Signer dynamic_fee_tx = Some addr_A \<and>
   Sender (chainID demo_client) dynamic_fee_tx = None \<and>
   \<not> isAddressInvolved demo_client dynamic_fee_tx plain_receipt addr_A \<and>
   isAddressInvolved demo_client (dynamic_fee_tx\<lparr>et_Type := LegacyTxType\<rparr>) plain_receipt addr_A"
  by (simp add: isAddressInvolved_def Sender_def dynamic_fee_tx_def plain_receipt_def
      demo_client_def NewPlasmaClient_def LegacyTxType_def demo_addr_distinct)

end
